theory Spec2Isabelle
  imports Main
begin

section \<open>wtf.replay.graphics.Visualizer: mutator registry and dispatch\<close>

text \<open>
  A shallow embedding of \<^verbatim>\<open>src/wtf/replay/graphics/visualizer.js\<close>. JavaScript objects
  that the code mutates and shares live in an explicit store and are named by
  references; every method takes the store and returns it, together with the exception
  it raised, if any. A JavaScript exception does not undo the writes made before it, so
  the store is returned in both cases.
\<close>

subsection \<open>Values\<close>

text \<open>
  Opaque host objects the class only passes around: the playback instance, the WebGL
  context and the argument data of an event.
\<close>

datatype host = Host string

text \<open>A \<^verbatim>\<open>MutatorHandler\<close> (line 121-126): a function value, named by an identifier.\<close>

datatype handler = Handler string

text \<open>
  What a slot of the registry can hold, or a lookup can yield:
  \<^item> \<open>JUndefined\<close>, \<open>JNull\<close>: the two values JavaScript lets through a nullable
    position;
  \<^item> \<open>JMutator pre post\<close>: a \<^verbatim>\<open>Mutator\<close> record (line 129-133), each field a
    handler or \<^verbatim>\<open>undefined\<close> (\<open>None\<close>);
  \<^item> \<open>JBuiltin n\<close>: the member \<open>n\<close> of \<^verbatim>\<open>Object.prototype\<close>, which every object
    literal inherits.
\<close>

datatype jsval =
    JUndefined
  | JNull
  | JMutator "handler option" "handler option"
  | JBuiltin string

text \<open>JavaScript truthiness: \<^verbatim>\<open>undefined\<close> and \<^verbatim>\<open>null\<close> are falsy, objects and functions truthy.\<close>

fun truthy :: "jsval \<Rightarrow> bool" where
  "truthy JUndefined = False"
| "truthy JNull = False"
| "truthy (JMutator p q) = True"
| "truthy (JBuiltin n) = True"

text \<open>
  Property reads \<^verbatim>\<open>v.pre\<close> and \<^verbatim>\<open>v.post\<close> on a truthy value. The members of
  \<^verbatim>\<open>Object.prototype\<close> have no such property, so the read gives \<^verbatim>\<open>undefined\<close>. The
  source guards both reads with the truthiness of \<open>v\<close>; on \<^verbatim>\<open>undefined\<close> and
  \<^verbatim>\<open>null\<close> the functions are never evaluated.
\<close>

fun prop_pre :: "jsval \<Rightarrow> handler option" where
  "prop_pre (JMutator p q) = p"
| "prop_pre v = None"

fun prop_post :: "jsval \<Rightarrow> handler option" where
  "prop_post (JMutator p q) = q"
| "prop_post v = None"

subsection \<open>Plain objects used as string-keyed tables\<close>

text \<open>The own enumerable properties of an object literal.\<close>

type_synonym jsobject = "string \<rightharpoonup> jsval"

text \<open>
  The property names every object literal inherits from \<^verbatim>\<open>Object.prototype\<close>. All of
  them hold functions, but \<^verbatim>\<open>__proto__\<close>, whose getter returns the prototype object
  itself; each value is truthy.
\<close>

definition Object_prototype_names :: "string list" where
  "Object_prototype_names =
     [''constructor'', ''hasOwnProperty'', ''isPrototypeOf'', ''propertyIsEnumerable'',
      ''toLocaleString'', ''toString'', ''valueOf'', ''__proto__'',
      ''__defineGetter__'', ''__defineSetter__'', ''__lookupGetter__'',
      ''__lookupSetter__'']"

definition Object_prototype :: "string \<Rightarrow> jsval" where
  "Object_prototype key =
     (if key \<in> set Object_prototype_names then JBuiltin key else JUndefined)"

text \<open>
  The read \<^verbatim>\<open>obj[key]\<close>: an own property wins, the prototype is asked otherwise, and a
  name found nowhere reads as \<^verbatim>\<open>undefined\<close>.
\<close>

definition get_prop :: "jsobject \<Rightarrow> string \<Rightarrow> jsval" where
  "get_prop obj key = (case obj key of Some v \<Rightarrow> v | None \<Rightarrow> Object_prototype key)"

subsection \<open>The store\<close>

type_synonym ref = nat

text \<open>
  The fields the constructor sets on \<^verbatim>\<open>this\<close> (line 35, 42, 49). \<open>mutators\<close> holds a
  reference to a table in the store, as the JavaScript field does.
\<close>

record visualizer =
  playback :: host
  active :: bool
  mutators :: ref

text \<open>
  \<open>objects\<close> maps the reference of a table to its own properties, \<open>instances\<close> the
  reference of a Visualizer to its fields, and \<open>last_ref\<close> is the reference handed out
  by the latest allocation of a table.
\<close>

record heap =
  objects :: "ref \<Rightarrow> jsobject"
  instances :: "ref \<Rightarrow> visualizer"
  last_ref :: ref

text \<open>
  \<^verbatim>\<open>wtf.replay.graphics.Visualizer.MUTATORS_\<close> (line 141): the static property holds
  the reference of the process-wide default table. The table is created when the file
  is loaded, before any allocation, so it sits at reference \<open>0\<close> and every later
  allocation returns a positive reference. (An Isabelle name cannot end with an
  underscore: \<open>MUTATORS\<close> stands for \<^verbatim>\<open>MUTATORS_\<close>.)
\<close>

definition MUTATORS :: ref where
  "MUTATORS = 0"

datatype exn =
    AssertionError string
  | Thrown host

type_synonym outcome = "exn option \<times> heap"

subsection \<open>Closure Library helpers\<close>

text \<open>
  Modelled from the spec: \<^verbatim>\<open>goog.asserts.assert\<close> is required by the file (line 14)
  and not part of it. The spec has a failed assertion fail fast, fatally to the calling
  code path: with assertions enabled, a falsy condition throws an assertion error that
  carries the message, and a truthy one lets the caller go on.
\<close>

definition goog_asserts_assert :: "bool \<Rightarrow> string \<Rightarrow> exn option" where
  "goog_asserts_assert condition message =
     (if condition then None else Some (AssertionError message))"

text \<open>
  Modelled from the spec: \<^verbatim>\<open>goog.object.clone\<close> is required by the file (line 15) and
  not part of it. The spec and the comment at line 45 have it make a shallow clone: a
  new object, at a reference of its own, with the own enumerable properties of the
  argument, each value copied as it is.
\<close>

definition goog_object_clone :: "ref \<Rightarrow> heap \<Rightarrow> ref \<times> heap" where
  "goog_object_clone obj h =
     (let res = Suc (last_ref h)
      in (res, h\<lparr>objects := (objects h)(res := objects h obj), last_ref := res\<rparr>))"

text \<open>
  Modelled from the spec: \<^verbatim>\<open>goog.nullFunction\<close>, the no-op the spec names as the default
  of \<^verbatim>\<open>setupMutators\<close> and \<^verbatim>\<open>applyToSubStep\<close>.
\<close>

definition goog_nullFunction :: "heap \<Rightarrow> outcome" where
  "goog_nullFunction h = (None, h)"

subsection \<open>The class\<close>

text \<open>
  line 69-77. The assertion tests the truthiness of the read \<^verbatim>\<open>this.mutators[name]\<close>;
  only when it passes is the slot written.
\<close>

definition already_exists :: "string \<Rightarrow> string" where
  "already_exists name =
     ''A mutator named '' @ [CHR 0x27] @ name @ [CHR 0x27] @ '' already exists.''"

definition registerMutator :: "ref \<Rightarrow> string \<Rightarrow> jsval \<Rightarrow> heap \<Rightarrow> outcome" where
  "registerMutator this name mutator h =
     (let table = mutators (instances h this)
      in case goog_asserts_assert (\<not> truthy (get_prop (objects h table) name))
                (already_exists name) of
           Some e \<Rightarrow> (Some e, h)
         | None \<Rightarrow>
             (None, h\<lparr>objects := (objects h)(table := (objects h table)(name \<mapsto> mutator))\<rparr>))"

text \<open>line 84 and line 60: both methods are \<^verbatim>\<open>goog.nullFunction\<close> in the base class.\<close>

definition setupMutators :: "ref \<Rightarrow> heap \<Rightarrow> outcome" where
  "setupMutators this h = goog_nullFunction h"

definition applyToSubStep :: "ref \<Rightarrow> nat option \<Rightarrow> heap \<Rightarrow> outcome" where
  "applyToSubStep this opt_subStepIndex h = goog_nullFunction h"

text \<open>
  line 27-52, the constructor, run on the object \<open>this\<close> that \<^verbatim>\<open>new\<close> created. The
  call \<^verbatim>\<open>this.setupMutators()\<close> is a dynamic dispatch: \<open>hook\<close> is the method it reaches,
  \<open>setupMutators\<close> for the base class and the override for a subclass. The base
  constructor \<^verbatim>\<open>goog.base(this)\<close> of the event emitter touches none of the three fields
  and no table.
\<close>

definition Visualizer ::
  "(ref \<Rightarrow> heap \<Rightarrow> outcome) \<Rightarrow> ref \<Rightarrow> host \<Rightarrow> heap \<Rightarrow> outcome" where
  "Visualizer hook this pb h =
     (let h1 = h\<lparr>instances := (instances h)(this := (instances h this)\<lparr>playback := pb\<rparr>)\<rparr>;
          h2 = h1\<lparr>instances := (instances h1)(this := (instances h1 this)\<lparr>active := False\<rparr>)\<rparr>;
          (res, h3) = goog_object_clone MUTATORS h2;
          h4 = h3\<lparr>instances := (instances h3)(this := (instances h3 this)\<lparr>mutators := res\<rparr>)\<rparr>
      in hook this h4)"

subsection \<open>Dispatch\<close>

text \<open>
  What the class reads of a \<^verbatim>\<open>wtf.db.EventIterator\<close>: the name and the arguments of
  the event it stands on.
\<close>

record EventIterator =
  it_name :: string
  it_arguments :: host

definition getName :: "EventIterator \<Rightarrow> string" where
  "getName it = it_name it"

definition getArguments :: "EventIterator \<Rightarrow> host" where
  "getArguments it = it_arguments it"

text \<open>
  One invocation \<^verbatim>\<open>f.call(null, this, gl, args)\<close> made by a dispatch method: the
  handler, the Visualizer passed first, the context (\<open>None\<close> for \<^verbatim>\<open>null\<close>) and the
  argument data.
\<close>

datatype call = Call handler ref "host option" host

text \<open>
  What the handlers do when called is not part of the file: \<open>run\<close> gives the effect of
  each on the store, and the exception it throws, if any.
\<close>

type_synonym behaviour = "handler \<Rightarrow> ref \<Rightarrow> host option \<Rightarrow> host \<Rightarrow> heap \<Rightarrow> outcome"

text \<open>
  line 92-101 and line 109-118. Each method returns the calls it made, in order, next
  to the outcome.
\<close>

definition handlePreEvent ::
  "behaviour \<Rightarrow> ref \<Rightarrow> EventIterator \<Rightarrow> host option \<Rightarrow> heap \<Rightarrow> call list \<times> outcome" where
  "handlePreEvent run this it gl h =
     (if \<not> active (instances h this) then ([], None, h)
      else
        let associatedFunction = get_prop (objects h (mutators (instances h this))) (getName it)
        in if truthy associatedFunction \<and> prop_pre associatedFunction \<noteq> None
           then ([Call (the (prop_pre associatedFunction)) this gl (getArguments it)],
                 run (the (prop_pre associatedFunction)) this gl (getArguments it) h)
           else ([], None, h))"

definition handlePostEvent ::
  "behaviour \<Rightarrow> ref \<Rightarrow> EventIterator \<Rightarrow> host option \<Rightarrow> heap \<Rightarrow> call list \<times> outcome" where
  "handlePostEvent run this it gl h =
     (if \<not> active (instances h this) then ([], None, h)
      else
        let associatedFunction = get_prop (objects h (mutators (instances h this))) (getName it)
        in if truthy associatedFunction \<and> prop_post associatedFunction \<noteq> None
           then ([Call (the (prop_post associatedFunction)) this gl (getArguments it)],
                 run (the (prop_post associatedFunction)) this gl (getArguments it) h)
           else ([], None, h))"

text \<open>
  A playback driver calls the two methods one after the other, any number of times; an
  exception ends the sequence, as it does a sequence of JavaScript statements.
\<close>

datatype dispatch =
    PreEvent EventIterator "host option"
  | PostEvent EventIterator "host option"

fun handleEvent :: "behaviour \<Rightarrow> ref \<Rightarrow> dispatch \<Rightarrow> heap \<Rightarrow> call list \<times> outcome" where
  "handleEvent run this (PreEvent it gl) h = handlePreEvent run this it gl h"
| "handleEvent run this (PostEvent it gl) h = handlePostEvent run this it gl h"

fun handleEvents :: "behaviour \<Rightarrow> ref \<Rightarrow> dispatch list \<Rightarrow> heap \<Rightarrow> call list \<times> outcome" where
  "handleEvents run this [] h = ([], None, h)"
| "handleEvents run this (d # ds) h =
     (case handleEvent run this d h of
        (cs, Some e, h') \<Rightarrow> (cs, Some e, h')
      | (cs, None, h') \<Rightarrow>
          (case handleEvents run this ds h' of (cs', r) \<Rightarrow> (cs @ cs', r)))"

text \<open>The table an instance holds, and what a lookup of a name through it yields.\<close>

definition registry :: "heap \<Rightarrow> ref \<Rightarrow> jsobject" where
  "registry h this = objects h (mutators (instances h this))"

definition lookup :: "heap \<Rightarrow> ref \<Rightarrow> string \<Rightarrow> jsval" where
  "lookup h this name = get_prop (registry h this) name"

text \<open>
  The state of the store right after the file is loaded: the default table is the empty
  object literal of line 141 and nothing else is allocated. The fields at a reference
  where no instance was constructed yet are placeholders: the constructor overwrites
  all three before any method reads them.
\<close>

definition loaded :: heap where
  "loaded =
     \<lparr>objects = (\<lambda>r. Map.empty),
      instances = (\<lambda>r. \<lparr>playback = Host [], active = False, mutators = MUTATORS\<rparr>),
      last_ref = MUTATORS\<rparr>"

subsection \<open>States used as concrete inputs\<close>

text \<open>
  The write \<^verbatim>\<open>v.active = b\<close>. No method of the class makes it: the flag is flipped
  from outside.
\<close>

definition set_active :: "ref \<Rightarrow> bool \<Rightarrow> heap \<Rightarrow> heap" where
  "set_active this b h =
     h\<lparr>instances := (instances h)(this := (instances h this)\<lparr>active := b\<rparr>)\<rparr>"

text \<open>A handler body that does nothing and throws nothing.\<close>

definition idle :: behaviour where
  "idle f this gl args h = (None, h)"

text \<open>A handler body that throws: a call of it cannot go unseen.\<close>

definition throwing :: behaviour where
  "throwing f this gl args h = (Some (Thrown (Host ''called'')), h)"

text \<open>\<^verbatim>\<open>new Visualizer(playback)\<close> on the loaded store, the instance at reference 1.\<close>

definition fresh_instance :: heap where
  "fresh_instance = snd (Visualizer setupMutators 1 (Host ''playback'') loaded)"

text \<open>A second instance, at reference 2, built after the first.\<close>

definition two_instances :: heap where
  "two_instances = snd (Visualizer setupMutators 2 (Host ''playback'') fresh_instance)"

text \<open>
  The first instance after \<^verbatim>\<open>registerMutator('draw', {post: g})\<close>, and the same
  with the flag set.
\<close>

definition draw_registered :: heap where
  "draw_registered =
     snd (registerMutator 1 ''draw'' (JMutator None (Some (Handler ''g''))) fresh_instance)"

definition draw_active :: heap where
  "draw_active = set_active 1 True draw_registered"

definition draw_event :: EventIterator where
  "draw_event = \<lparr>it_name = ''draw'', it_arguments = Host ''argsX''\<rparr>"

definition unknown_event :: EventIterator where
  "unknown_event = \<lparr>it_name = ''unknown'', it_arguments = Host ''argsY''\<rparr>"

section \<open>Properties\<close>

subsection \<open>Shared lemmas\<close>

lemma registerMutator_exists:
  "truthy (lookup h this name) \<Longrightarrow>
   registerMutator this name m h = (Some (AssertionError (already_exists name)), h)"
  by (simp add: registerMutator_def lookup_def registry_def goog_asserts_assert_def Let_def)

lemma registerMutator_free:
  "\<not> truthy (lookup h this name) \<Longrightarrow>
   registerMutator this name m h =
     (None, h\<lparr>objects := (objects h)(mutators (instances h this) :=
                 (registry h this)(name \<mapsto> m))\<rparr>)"
  by (simp add: registerMutator_def lookup_def registry_def goog_asserts_assert_def Let_def)

lemma lookup_own: "registry h this name = Some v \<Longrightarrow> lookup h this name = v"
  by (simp add: lookup_def get_prop_def)

lemma lookup_inherited:
  "registry h this name = None \<Longrightarrow> lookup h this name = Object_prototype name"
  by (simp add: lookup_def get_prop_def)

lemma truthy_Object_prototype:
  "truthy (Object_prototype name) \<longleftrightarrow> name \<in> set Object_prototype_names"
  by (simp add: Object_prototype_def)

lemma prop_Object_prototype:
  "prop_pre (Object_prototype name) = None" "prop_post (Object_prototype name) = None"
  by (simp_all add: Object_prototype_def)

lemma Visualizer_base:
  "Visualizer setupMutators this pb h =
     (None,
      h\<lparr>objects := (objects h)(Suc (last_ref h) := objects h MUTATORS),
        instances := (instances h)(this :=
          (instances h this)\<lparr>playback := pb, active := False, mutators := Suc (last_ref h)\<rparr>),
        last_ref := Suc (last_ref h)\<rparr>)"
  by (simp add: Visualizer_def setupMutators_def goog_nullFunction_def goog_object_clone_def
      Let_def)

lemma fresh_instance_eq:
  "fresh_instance =
     \<lparr>objects = (\<lambda>r. Map.empty),
      instances = (\<lambda>r. \<lparr>playback = Host [], active = False, mutators = 0\<rparr>)
        (Suc 0 := \<lparr>playback = Host ''playback'', active = False, mutators = Suc 0\<rparr>),
      last_ref = Suc 0\<rparr>"
  by (simp add: fresh_instance_def Visualizer_base loaded_def MUTATORS_def fun_eq_iff)

lemma handle_inactive:
  assumes "\<not> active (instances h this)"
  shows "handlePreEvent run this it gl h = ([], None, h)"
    and "handlePostEvent run this it gl h = ([], None, h)"
  using assms by (simp_all add: handlePreEvent_def handlePostEvent_def)

subsection \<open>Registration\<close>

text \<open>
  C1, as amended. When the name is bound in the registry of the instance to a truthy
  value, as every \<open>Mutator\<close> record is, \<open>registerMutator\<close> throws the assertion error for
  any second mutator, the first one included, and leaves the store as it was: nothing is
  overwritten.
\<close>

theorem registerMutator_duplicate_fails:
  assumes "registry h this name = Some v" and "truthy v"
  shows "registerMutator this name m h = (Some (AssertionError (already_exists name)), h)"
  using assms by (simp add: registerMutator_exists lookup_own)

lemma draw_registered_eq:
  "draw_registered =
     fresh_instance\<lparr>objects := (objects fresh_instance)
       (Suc 0 := [''draw'' \<mapsto> JMutator None (Some (Handler ''g''))])\<rparr>"
  by (simp add: draw_registered_def registerMutator_def registry_def get_prop_def
      goog_asserts_assert_def Object_prototype_def Object_prototype_names_def
      fresh_instance_eq Let_def)

lemma draw_registered_registry:
  "registry draw_registered 1 ''draw'' = Some (JMutator None (Some (Handler ''g'')))"
  by (simp add: draw_registered_eq registry_def fresh_instance_eq)

theorem registerMutator_duplicate_fails_witness:
  "registry draw_registered 1 ''draw'' = Some (JMutator None (Some (Handler ''g''))) \<and>
   truthy (JMutator None (Some (Handler ''g''))) \<and>
   registerMutator 1 ''draw'' (JMutator None (Some (Handler ''g''))) draw_registered =
     (Some (AssertionError (already_exists ''draw'')), draw_registered)"
  using registerMutator_duplicate_fails [OF draw_registered_registry,
      of "JMutator None (Some (Handler ''g''))"]
    draw_registered_registry
  by simp

text \<open>
  C1, as stated, fails: after \<^verbatim>\<open>registerMutator('draw', null)\<close> on a new instance the
  name is bound in the registry, and a second registration under it passes the
  assertion and replaces the entry.
\<close>

theorem registerMutator_null_then_overwrite:
  "fst (registerMutator 1 ''draw'' JNull fresh_instance) = None \<and>
   registry (snd (registerMutator 1 ''draw'' JNull fresh_instance)) 1 ''draw'' = Some JNull \<and>
   fst (registerMutator 1 ''draw'' (JMutator (Some (Handler ''f'')) None)
          (snd (registerMutator 1 ''draw'' JNull fresh_instance))) = None \<and>
   registry (snd (registerMutator 1 ''draw'' (JMutator (Some (Handler ''f'')) None)
          (snd (registerMutator 1 ''draw'' JNull fresh_instance)))) 1 ''draw''
     = Some (JMutator (Some (Handler ''f'')) None)"
  by (simp add: registerMutator_def registry_def get_prop_def goog_asserts_assert_def
      Object_prototype_def Object_prototype_names_def fresh_instance_eq Let_def)

text \<open>
  C4, at the input where the code leaves it. On a new instance over the empty default
  table the name \<^verbatim>\<open>toString\<close> is in neither table, and \<open>registerMutator\<close> still throws
  the assertion error and stores nothing.
\<close>

theorem registerMutator_toString_fails:
  "objects loaded MUTATORS ''toString'' = None \<and>
   registry fresh_instance 1 ''toString'' = None \<and>
   registerMutator 1 ''toString'' (JMutator (Some (Handler ''f'')) None) fresh_instance =
     (Some (AssertionError (already_exists ''toString'')), fresh_instance)"
  by (simp add: registerMutator_def registry_def get_prop_def goog_asserts_assert_def
      Object_prototype_def Object_prototype_names_def fresh_instance_eq Let_def loaded_def)

text \<open>
  Under a name that is neither in the default table nor a name of
  \<^verbatim>\<open>Object.prototype\<close>, the registration on a new instance goes through, and the name
  then reads as the mutator.
\<close>

lemma registerMutator_new_name:
  assumes "objects h MUTATORS name = None"
    and "name \<notin> set Object_prototype_names"
  shows "fst (registerMutator this name m (snd (Visualizer setupMutators this pb h))) = None \<and>
         lookup (snd (registerMutator this name m (snd (Visualizer setupMutators this pb h))))
           this name = m"
proof -
  let ?h = "snd (Visualizer setupMutators this pb h)"
  have "registry ?h this name = None"
    using assms(1) by (simp add: Visualizer_base registry_def)
  then have free: "\<not> truthy (lookup ?h this name)"
    using assms(2) by (simp add: lookup_inherited truthy_Object_prototype)
  have call: "registerMutator this name m ?h =
      (None, ?h\<lparr>objects := (objects ?h)(mutators (instances ?h this) :=
                 (registry ?h this)(name \<mapsto> m))\<rparr>)"
    using free by (rule registerMutator_free)
  have "fst (registerMutator this name m ?h) = None"
    by (simp only: call fst_conv)
  moreover have "lookup (snd (registerMutator this name m ?h)) this name = m"
    by (simp only: call snd_conv) (simp add: lookup_def registry_def get_prop_def)
  ultimately show ?thesis
    by blast
qed

text \<open>
  C9. Over an empty default table, a new instance has no entry under any name of
  \<^verbatim>\<open>Object.prototype\<close>, and \<open>registerMutator\<close> under such a name throws the assertion
  error, whatever the mutator.
\<close>

theorem registerMutator_inherited_name_fails:
  assumes "name \<in> set Object_prototype_names"
    and "objects h MUTATORS = Map.empty"
  shows "registry (snd (Visualizer setupMutators this pb h)) this name = None \<and>
         registerMutator this name m (snd (Visualizer setupMutators this pb h)) =
           (Some (AssertionError (already_exists name)),
            snd (Visualizer setupMutators this pb h))"
proof -
  let ?h = "snd (Visualizer setupMutators this pb h)"
  have none: "registry ?h this name = None"
    using assms(2) by (simp add: Visualizer_base registry_def)
  then have "truthy (lookup ?h this name)"
    using assms(1) by (simp add: lookup_inherited truthy_Object_prototype)
  then show ?thesis
    using none by (simp add: registerMutator_exists)
qed

theorem registerMutator_inherited_name_fails_witness:
  "''constructor'' \<in> set Object_prototype_names \<and>
   objects loaded MUTATORS = Map.empty \<and>
   registry fresh_instance 1 ''constructor'' = None \<and>
   registerMutator 1 ''constructor'' JNull fresh_instance =
     (Some (AssertionError (already_exists ''constructor'')), fresh_instance)"
  using registerMutator_inherited_name_fails
    [of "''constructor''" loaded 1 "Host ''playback''" JNull]
  by (simp add: Object_prototype_names_def loaded_def fresh_instance_def)

text \<open>
  C10. Where the name reads falsy, \<open>registerMutator\<close> with a falsy mutator stores it
  under the name; a second \<open>registerMutator\<close> under the name then passes the assertion and
  replaces the entry with the new mutator.
\<close>

theorem registerMutator_falsy_overwritten:
  assumes "\<not> truthy m" and "\<not> truthy (lookup h this name)"
  shows "fst (registerMutator this name m h) = None \<and>
         registry (snd (registerMutator this name m h)) this name = Some m \<and>
         fst (registerMutator this name m' (snd (registerMutator this name m h))) = None \<and>
         registry (snd (registerMutator this name m'
                     (snd (registerMutator this name m h)))) this name = Some m'"
proof -
  let ?h1 = "snd (registerMutator this name m h)"
  have first: "registerMutator this name m h =
      (None, h\<lparr>objects := (objects h)(mutators (instances h this) :=
                 (registry h this)(name \<mapsto> m))\<rparr>)"
    using assms(2) by (rule registerMutator_free)
  have stored: "registry ?h1 this name = Some m"
    by (simp add: first registry_def)
  then have free: "\<not> truthy (lookup ?h1 this name)"
    using assms(1) by (simp add: lookup_own)
  have second: "registerMutator this name m' ?h1 =
      (None, ?h1\<lparr>objects := (objects ?h1)(mutators (instances ?h1 this) :=
                 (registry ?h1 this)(name \<mapsto> m'))\<rparr>)"
    using free by (rule registerMutator_free)
  have ok1: "fst (registerMutator this name m h) = None"
    by (simp add: first)
  have ok2: "fst (registerMutator this name m' ?h1) = None"
    by (simp only: second fst_conv)
  have "registry (snd (registerMutator this name m' ?h1)) this name = Some m'"
    by (simp only: second snd_conv) (simp add: registry_def)
  with ok1 stored ok2 show ?thesis
    by blast
qed

theorem registerMutator_falsy_overwritten_witness:
  "\<not> truthy JNull \<and> \<not> truthy (lookup fresh_instance 1 ''draw'') \<and>
   fst (registerMutator 1 ''draw'' JNull fresh_instance) = None \<and>
   registry (snd (registerMutator 1 ''draw'' JNull fresh_instance)) 1 ''draw'' = Some JNull \<and>
   fst (registerMutator 1 ''draw'' (JMutator None None)
          (snd (registerMutator 1 ''draw'' JNull fresh_instance))) = None \<and>
   registry (snd (registerMutator 1 ''draw'' (JMutator None None)
          (snd (registerMutator 1 ''draw'' JNull fresh_instance)))) 1 ''draw''
     = Some (JMutator None None)"
proof -
  have free: "\<not> truthy (lookup fresh_instance 1 ''draw'')"
    by (simp add: lookup_def registry_def get_prop_def Object_prototype_def
        Object_prototype_names_def fresh_instance_eq)
  have falsy: "\<not> truthy JNull" by simp
  show ?thesis
    using registerMutator_falsy_overwritten [OF falsy free, of "JMutator None None"] free
    by simp
qed

subsection \<open>Dispatch\<close>

lemma handleEvents_inactive:
  "\<not> active (instances h this) \<Longrightarrow> handleEvents run this ds h = ([], None, h)"
proof (induction ds)
  case Nil
  show ?case by simp
next
  case (Cons d ds)
  then show ?case
    by (cases d) (simp_all add: handle_inactive)
qed

text \<open>
  C2. While the flag of the instance is false, \<open>handlePreEvent\<close> and \<open>handlePostEvent\<close>
  make no call, throw nothing and leave the store as it is, for every event, context and
  behaviour of the handlers; so does every sequence of such calls.
\<close>

theorem inactive_dispatch_calls_nothing:
  assumes "\<not> active (instances h this)"
  shows "handlePreEvent run this it gl h = ([], None, h) \<and>
         handlePostEvent run this it gl h = ([], None, h) \<and>
         handleEvents run this ds h = ([], None, h)"
  using assms by (simp add: handle_inactive handleEvents_inactive)

lemma draw_registered_inactive: "\<not> active (instances draw_registered 1)"
  by (simp add: draw_registered_eq fresh_instance_eq)

theorem inactive_dispatch_calls_nothing_witness:
  "\<not> active (instances draw_registered 1) \<and>
   handlePreEvent throwing 1 draw_event (Some (Host ''gl'')) draw_registered =
     ([], None, draw_registered) \<and>
   handlePostEvent throwing 1 draw_event (Some (Host ''gl'')) draw_registered =
     ([], None, draw_registered) \<and>
   handleEvents throwing 1
     [PreEvent draw_event (Some (Host ''gl'')), PostEvent draw_event (Some (Host ''gl'')),
      PostEvent draw_event None] draw_registered =
     ([], None, draw_registered)"
  using inactive_dispatch_calls_nothing [OF draw_registered_inactive]
    draw_registered_inactive
  by blast

text \<open>
  C3. With the flag true and an entry under the name of the event that holds a post
  handler and no pre handler, \<open>handlePreEvent\<close> makes no call and changes nothing, and
  \<open>handlePostEvent\<close> makes one call, of the post handler, with the instance, the context
  it was given and the arguments of the event; its outcome is the outcome of that call.
\<close>

theorem post_only_entry_dispatch:
  assumes "active (instances h this)"
    and "registry h this (getName it) = Some (JMutator None (Some g))"
  shows "handlePreEvent run this it gl h = ([], None, h) \<and>
         handlePostEvent run this it gl h =
           ([Call g this gl (getArguments it)], run g this gl (getArguments it) h)"
proof -
  have "lookup h this (getName it) = JMutator None (Some g)"
    using assms(2) by (rule lookup_own)
  then have "get_prop (objects h (mutators (instances h this))) (getName it) =
      JMutator None (Some g)"
    by (simp add: lookup_def registry_def)
  then show ?thesis
    using assms(1) by (simp add: handlePreEvent_def handlePostEvent_def)
qed

lemma draw_active_eq:
  "draw_active =
     \<lparr>objects = (\<lambda>r. Map.empty)(Suc 0 := [''draw'' \<mapsto> JMutator None (Some (Handler ''g''))]),
      instances = (\<lambda>r. \<lparr>playback = Host [], active = False, mutators = 0\<rparr>)
        (Suc 0 := \<lparr>playback = Host ''playback'', active = True, mutators = Suc 0\<rparr>),
      last_ref = Suc 0\<rparr>"
  by (simp add: draw_active_def set_active_def draw_registered_eq fresh_instance_eq)

lemma draw_active_facts:
  "active (instances draw_active 1)"
  "registry draw_active 1 (getName draw_event) = Some (JMutator None (Some (Handler ''g'')))"
  "registry draw_active 1 (getName unknown_event) = None"
  by (simp_all add: draw_active_eq registry_def getName_def draw_event_def unknown_event_def)

theorem post_only_entry_dispatch_witness:
  "active (instances draw_active 1) \<and>
   registry draw_active 1 (getName draw_event) = Some (JMutator None (Some (Handler ''g''))) \<and>
   handlePreEvent idle 1 draw_event (Some (Host ''gl'')) draw_active = ([], None, draw_active) \<and>
   handlePostEvent idle 1 draw_event (Some (Host ''gl'')) draw_active =
     ([Call (Handler ''g'') 1 (Some (Host ''gl'')) (Host ''argsX'')], None, draw_active)"
  using post_only_entry_dispatch [OF draw_active_facts(1) draw_active_facts(2),
      of idle "Some (Host ''gl'')"] draw_active_facts
  by (simp add: idle_def getArguments_def draw_event_def)

text \<open>
  C5. With the flag true and no entry under the name of the event in the registry of
  the instance, \<open>handlePreEvent\<close> and \<open>handlePostEvent\<close> make no call, throw nothing and
  leave the store as it is.
\<close>

theorem unregistered_event_dispatch:
  assumes "active (instances h this)"
    and "registry h this (getName it) = None"
  shows "handlePreEvent run this it gl h = ([], None, h) \<and>
         handlePostEvent run this it gl h = ([], None, h)"
proof -
  have "lookup h this (getName it) = Object_prototype (getName it)"
    using assms(2) by (rule lookup_inherited)
  then have "get_prop (objects h (mutators (instances h this))) (getName it) =
      Object_prototype (getName it)"
    by (simp add: lookup_def registry_def)
  then show ?thesis
    by (simp add: handlePreEvent_def handlePostEvent_def prop_Object_prototype)
qed

theorem unregistered_event_dispatch_witness:
  "active (instances draw_active 1) \<and>
   registry draw_active 1 (getName unknown_event) = None \<and>
   handlePreEvent throwing 1 unknown_event (Some (Host ''gl'')) draw_active =
     ([], None, draw_active) \<and>
   handlePostEvent throwing 1 unknown_event (Some (Host ''gl'')) draw_active =
     ([], None, draw_active)"
  using unregistered_event_dispatch [OF draw_active_facts(1) draw_active_facts(3)]
    draw_active_facts
  by blast

text \<open>
  Neither method writes to the store: what it returns is the store it was given, or the
  outcome of the one handler it called on that store.
\<close>

lemma handlePreEvent_outcome:
  "snd (handlePreEvent run this it gl h) = (None, h) \<or>
   (\<exists>f. snd (handlePreEvent run this it gl h) = run f this gl (getArguments it) h)"
  by (auto simp add: handlePreEvent_def Let_def)

lemma handlePostEvent_outcome:
  "snd (handlePostEvent run this it gl h) = (None, h) \<or>
   (\<exists>f. snd (handlePostEvent run this it gl h) = run f this gl (getArguments it) h)"
  by (auto simp add: handlePostEvent_def Let_def)

lemma handleEvent_frame:
  assumes "\<And>f t g a s. instances (snd (run f t g a s)) this = instances s this \<and>
             registry (snd (run f t g a s)) this = registry s this"
  shows "instances (snd (snd (handleEvent run this d h))) this = instances h this \<and>
         registry (snd (snd (handleEvent run this d h))) this = registry h this"
proof (cases d)
  case (PreEvent it gl)
  show ?thesis
    using handlePreEvent_outcome [of run this it gl h] assms
    by (auto simp add: PreEvent)
next
  case (PostEvent it gl)
  show ?thesis
    using handlePostEvent_outcome [of run this it gl h] assms
    by (auto simp add: PostEvent)
qed

lemma handleEvents_frame:
  assumes "\<And>f t g a s. instances (snd (run f t g a s)) this = instances s this \<and>
             registry (snd (run f t g a s)) this = registry s this"
  shows "instances (snd (snd (handleEvents run this ds h))) this = instances h this \<and>
         registry (snd (snd (handleEvents run this ds h))) this = registry h this"
proof (induction ds arbitrary: h)
  case Nil
  show ?case by simp
next
  case (Cons d ds)
  obtain cs r h' where step: "handleEvent run this d h = (cs, r, h')"
    by (cases "handleEvent run this d h") auto
  have kept: "instances h' this = instances h this \<and> registry h' this = registry h this"
    using handleEvent_frame [of run this d h, OF assms] by (simp add: step)
  show ?case
  proof (cases r)
    case None
    obtain cs' r' h'' where rest: "handleEvents run this ds h' = (cs', r', h'')"
      by (cases "handleEvents run this ds h'") auto
    have "instances h'' this = instances h' this \<and> registry h'' this = registry h' this"
      using Cons.IH [of h'] by (simp add: rest)
    then show ?thesis
      using kept by (simp add: step None rest)
  next
    case (Some e)
    then show ?thesis
      using kept by (simp add: step)
  qed
qed

text \<open>
  C8. When no handler changes the fields of the instance or its registry, the fields
  (the flag among them) and the registry are after \<open>handlePreEvent\<close>, after
  \<open>handlePostEvent\<close> and after any sequence of them what they were before.
\<close>

theorem dispatch_keeps_instance:
  assumes "\<And>f t g a s. instances (snd (run f t g a s)) this = instances s this \<and>
             registry (snd (run f t g a s)) this = registry s this"
  shows "instances (snd (snd (handlePreEvent run this it gl h))) this = instances h this \<and>
         registry (snd (snd (handlePreEvent run this it gl h))) this = registry h this \<and>
         instances (snd (snd (handlePostEvent run this it gl h))) this = instances h this \<and>
         registry (snd (snd (handlePostEvent run this it gl h))) this = registry h this \<and>
         instances (snd (snd (handleEvents run this ds h))) this = instances h this \<and>
         registry (snd (snd (handleEvents run this ds h))) this = registry h this"
  using handleEvent_frame [of run this "PreEvent it gl" h, OF assms]
    handleEvent_frame [of run this "PostEvent it gl" h, OF assms]
    handleEvents_frame [of run this ds h, OF assms]
  by simp

theorem dispatch_keeps_instance_witness:
  "(\<forall>f t g a s. instances (snd (idle f t g a s)) 1 = instances s 1 \<and>
      registry (snd (idle f t g a s)) 1 = registry s 1) \<and>
   instances (snd (snd (handlePreEvent idle 1 draw_event None draw_active))) 1 =
     instances draw_active 1 \<and>
   registry (snd (snd (handlePreEvent idle 1 draw_event None draw_active))) 1 =
     registry draw_active 1 \<and>
   instances (snd (snd (handlePostEvent idle 1 draw_event None draw_active))) 1 =
     instances draw_active 1 \<and>
   registry (snd (snd (handlePostEvent idle 1 draw_event None draw_active))) 1 =
     registry draw_active 1 \<and>
   instances (snd (snd (handleEvents idle 1
     [PreEvent draw_event None, PostEvent draw_event None] draw_active))) 1 =
     instances draw_active 1 \<and>
   registry (snd (snd (handleEvents idle 1
     [PreEvent draw_event None, PostEvent draw_event None] draw_active))) 1 =
     registry draw_active 1"
proof -
  have frame: "\<And>f t g a s. instances (snd (idle f t g a s)) 1 = instances s 1 \<and>
      registry (snd (idle f t g a s)) 1 = registry s 1"
    by (simp add: idle_def)
  show ?thesis
    using dispatch_keeps_instance [of idle 1 draw_event None draw_active
        "[PreEvent draw_event None, PostEvent draw_event None]", OF frame] frame
    by blast
qed

subsection \<open>Construction\<close>

text \<open>
  C7. The constructor hands to the \<open>setupMutators\<close> method of the instance, once and
  last, a store in which the flag of the instance is false, its playback is the argument
  and its registry is a new table with the properties of the default table; the default
  table itself is as before. With the method of the base class that store is the result.
\<close>

theorem Visualizer_seeds_then_calls_hook:
  "\<exists>h'. Visualizer hook this pb h = hook this h' \<and>
         Visualizer setupMutators this pb h = (None, h') \<and>
         active (instances h' this) = False \<and>
         playback (instances h' this) = pb \<and>
         registry h' this = objects h MUTATORS \<and>
         mutators (instances h' this) \<noteq> MUTATORS \<and>
         objects h' MUTATORS = objects h MUTATORS"
proof -
  let ?h' = "h\<lparr>objects := (objects h)(Suc (last_ref h) := objects h MUTATORS),
        last_ref := Suc (last_ref h),
        instances := (instances h)(this :=
          (instances h this)\<lparr>playback := pb, active := False, mutators := Suc (last_ref h)\<rparr>)\<rparr>"
  have "Visualizer hook this pb h = hook this ?h'"
    by (simp add: Visualizer_def goog_object_clone_def Let_def)
  moreover have "Visualizer setupMutators this pb h = (None, ?h')"
    by (simp add: Visualizer_base)
  moreover have "active (instances ?h' this) = False" "playback (instances ?h' this) = pb"
    by simp_all
  moreover have "registry ?h' this = objects h MUTATORS"
    by (simp add: registry_def)
  moreover have "mutators (instances ?h' this) \<noteq> MUTATORS"
    by (simp add: MUTATORS_def)
  moreover have "objects ?h' MUTATORS = objects h MUTATORS"
    by (simp add: MUTATORS_def)
  ultimately show ?thesis
    by blast
qed

subsection \<open>Isolation of the registries\<close>

text \<open>
  C6. Two instances are built one after the other, at different references, and a
  mutator is then registered under a name on the first. Whether the call throws or not,
  the registry of the second instance and what the name reads to through it are as
  before the call, and the default table is as it was before both constructions. When
  the call does not throw, the name is bound on the first instance and still reads falsy
  through the second.
\<close>

theorem registration_stays_on_instance:
  assumes "Visualizer setupMutators a pa h0 = (None, h1)"
    and "Visualizer setupMutators b pb h1 = (None, h2)"
    and "a \<noteq> b"
    and "registerMutator a name m h2 = (e, h3)"
  shows "registry h3 b = registry h2 b \<and>
         lookup h3 b name = lookup h2 b name \<and>
         objects h3 MUTATORS = objects h0 MUTATORS \<and>
         (e = None \<longrightarrow> registry h3 a name = Some m \<and> \<not> truthy (lookup h3 b name))"
proof -
  let ?ra = "Suc (last_ref h0)"
  let ?rb = "Suc (Suc (last_ref h0))"
  have h1: "h1 = h0\<lparr>objects := (objects h0)(?ra := objects h0 MUTATORS),
        instances := (instances h0)(a :=
          (instances h0 a)\<lparr>playback := pa, active := False, mutators := ?ra\<rparr>),
        last_ref := ?ra\<rparr>"
    using assms(1) by (simp add: Visualizer_base)
  have h2: "h2 = h1\<lparr>objects := (objects h1)(Suc (last_ref h1) := objects h1 MUTATORS),
        instances := (instances h1)(b :=
          (instances h1 b)\<lparr>playback := pb, active := False, mutators := Suc (last_ref h1)\<rparr>),
        last_ref := Suc (last_ref h1)\<rparr>"
    using assms(2) by (simp add: Visualizer_base)
  have ma: "mutators (instances h2 a) = ?ra" and mb: "mutators (instances h2 b) = ?rb"
    using assms(3) by (simp_all add: h1 h2)
  have ta: "objects h2 ?ra = objects h0 MUTATORS" and tb: "objects h2 ?rb = objects h0 MUTATORS"
    and t0: "objects h2 MUTATORS = objects h0 MUTATORS"
    by (simp_all add: h1 h2 MUTATORS_def)
  have same: "lookup h2 b name = lookup h2 a name"
    by (simp add: lookup_def registry_def ma mb ta tb)
  show ?thesis
  proof (cases "truthy (lookup h2 a name)")
    case True
    then have "e = Some (AssertionError (already_exists name))" and "h3 = h2"
      using assms(4) by (simp_all add: registerMutator_exists)
    then show ?thesis
      by (simp add: t0)
  next
    case False
    then have h3: "h3 = h2\<lparr>objects := (objects h2)(?ra := (registry h2 a)(name \<mapsto> m))\<rparr>"
      using assms(4) by (simp add: registerMutator_free ma)
    have "registry h3 b = registry h2 b"
      by (simp add: h3 registry_def mb)
    moreover from this have "lookup h3 b name = lookup h2 b name"
      by (simp add: lookup_def)
    moreover have "objects h3 MUTATORS = objects h0 MUTATORS"
      using t0 by (simp add: h3 MUTATORS_def)
    moreover have "registry h3 a name = Some m"
      by (simp add: h3 registry_def ma)
    moreover have "\<not> truthy (lookup h3 b name)"
      using False same \<open>lookup h3 b name = lookup h2 b name\<close> by simp
    ultimately show ?thesis
      by blast
  qed
qed

lemma two_instances_built:
  "Visualizer setupMutators 1 (Host ''playback'') loaded = (None, fresh_instance)"
  "Visualizer setupMutators 2 (Host ''playback'') fresh_instance = (None, two_instances)"
  by (simp_all add: fresh_instance_def two_instances_def Visualizer_base)

theorem registration_stays_on_instance_witness:
  "Visualizer setupMutators 1 (Host ''playback'') loaded = (None, fresh_instance) \<and>
   Visualizer setupMutators 2 (Host ''playback'') fresh_instance = (None, two_instances) \<and>
   (1::nat) \<noteq> 2 \<and>
   fst (registerMutator 1 ''draw'' (JMutator None None) two_instances) = None \<and>
   registry (snd (registerMutator 1 ''draw'' (JMutator None None) two_instances)) 2 =
     registry two_instances 2 \<and>
   lookup (snd (registerMutator 1 ''draw'' (JMutator None None) two_instances)) 2 ''draw'' =
     lookup two_instances 2 ''draw'' \<and>
   objects (snd (registerMutator 1 ''draw'' (JMutator None None) two_instances)) MUTATORS =
     objects loaded MUTATORS \<and>
   registry (snd (registerMutator 1 ''draw'' (JMutator None None) two_instances)) 1 ''draw'' =
     Some (JMutator None None) \<and>
   \<not> truthy (lookup (snd (registerMutator 1 ''draw'' (JMutator None None) two_instances))
              2 ''draw'')"
proof -
  have distinct: "(1::nat) \<noteq> 2" by simp
  have free: "\<not> truthy (lookup two_instances 1 ''draw'')"
    by (simp add: lookup_def registry_def get_prop_def Object_prototype_def
        Object_prototype_names_def two_instances_def Visualizer_base fresh_instance_eq
        MUTATORS_def)
  have ok: "fst (registerMutator 1 ''draw'' (JMutator None None) two_instances) = None"
    using free by (simp add: registerMutator_free)
  have call: "registerMutator 1 ''draw'' (JMutator None None) two_instances =
      (None, snd (registerMutator 1 ''draw'' (JMutator None None) two_instances))"
    using ok by (simp add: prod_eq_iff)
  show ?thesis
    using registration_stays_on_instance
      [OF two_instances_built(1) two_instances_built(2) distinct call]
      two_instances_built ok distinct
    by blast
qed

end
